theory Spec2Isabelle
  imports Complex_Main "HOL-Library.AList" "HOL-Library.Sublist"
begin

section \<open>Data model of the coloured Petri net engine\<close>

text \<open>
  The engine is the class \<open>ColoredPetriNet\<close>. Its values are JavaScript values of
  type \<open>any\<close>: token colours, bindings (plain objects) and handler results all live
  in one universe, because a firing without a handler uses the binding itself as its
  result and mints it as a token colour. An object is an association list in insertion
  order with distinct keys, which is what \<open>Object.keys\<close> enumerates.
\<close>

datatype val =
    VUndefined
  | VBool bool
  | VNum int
  | VStr string
  | VArr "val list"
  | VObj "(string \<times> val) list"

type_synonym binding = "(string \<times> val) list"

record token =
  token_id :: string
  color :: val
  token_place :: string

record place =
  place_id :: string
  place_name :: string
  place_description :: "string option"
  tokens :: "token list"

text \<open>
  \<open>weight\<close>, \<open>pattern\<close> and \<open>expression\<close> are optional fields. A handler is an
  asynchronous function; its promise either resolves with a value (\<open>Inr\<close>) or rejects
  with a reason (\<open>Inl\<close>). Guards, patterns, expressions and handlers are taken to be
  functions of their argument alone.
\<close>

record arc =
  arc_id :: string
  source :: string
  target :: string
  weight :: "int option"
  pattern :: "(token \<Rightarrow> bool) option"
  expression :: "(val \<Rightarrow> val) option"

record transition =
  transition_id :: string
  transition_name :: string
  transition_description :: "string option"
  guard :: "(binding \<Rightarrow> bool) option"
  handler :: "(binding \<Rightarrow> val + val) option"

text \<open>
  JavaScript numbers are modelled by exact rationals in the confidence score; the
  token counter is a natural number.
\<close>

record hint =
  transitionId :: string
  transitionName :: string
  description :: "string option"
  confidence :: rat
  requiredTokens :: "string list"
  example :: string

text \<open>
  What a call can throw: a plain \<open>Error\<close> with its message, the
  \<open>TransitionNotEnabledError\<close> with message, transition name and the hints it
  carries, or whatever reason a handler rejected with, passed on as it is.
\<close>

datatype error =
    Error string
  | TransitionNotEnabledError string string "hint list"
  | HandlerRejection val

text \<open>
  The two \<open>Map\<close>s keep their keys in insertion order; setting an existing key keeps its
  position and replaces its value, which is \<open>AList.update\<close>.
\<close>

record net =
  places :: "(string \<times> place) list"
  transitions :: "(string \<times> transition) list"
  arcs :: "arc list"
  tokenCounter :: nat

definition emptyNet :: net where
  "emptyNet = \<lparr>places = [], transitions = [], arcs = [], tokenCounter = 0\<rparr>"

section \<open>Net structure and mutation\<close>

definition addPlace :: "net \<Rightarrow> place \<Rightarrow> net" where
  "addPlace n p = n\<lparr>places := AList.update (place_id p) p (places n)\<rparr>"

definition addTransition :: "net \<Rightarrow> transition \<Rightarrow> net" where
  "addTransition n t = n\<lparr>transitions := AList.update (transition_id t) t (transitions n)\<rparr>"

definition addArc :: "net \<Rightarrow> arc \<Rightarrow> net" where
  "addArc n a = n\<lparr>arcs := arcs n @ [a]\<rparr>"

text \<open>Decimal rendering of the counter inside the template string \<open>token-N\<close>.\<close>

definition digitChar :: "nat \<Rightarrow> char" where
  "digitChar d = char_of (48 + d)"

fun showNat :: "nat \<Rightarrow> string" where
  "showNat n = (if n < 10 then [digitChar n] else showNat (n div 10) @ [digitChar (n mod 10)])"

declare showNat.simps [simp del]

definition tokenName :: "nat \<Rightarrow> string" where
  "tokenName k = ''token-'' @ showNat k"


definition addToken :: "net \<Rightarrow> string \<Rightarrow> val \<Rightarrow> error + (string \<times> net)" where
  "addToken n placeId c =
     (case map_of (places n) placeId of
        None \<Rightarrow> Inl (Error (''Place '' @ placeId @ '' not found''))
      | Some p \<Rightarrow>
          (let k = tokenCounter n + 1;
               tokenId = tokenName k;
               tok = \<lparr>token_id = tokenId, color = c, token_place = placeId\<rparr>
           in Inr (tokenId,
                   n\<lparr>places := AList.update placeId (p\<lparr>tokens := tokens p @ [tok]\<rparr>) (places n),
                     tokenCounter := k\<rparr>)))"

section \<open>Enablement and binding search\<close>

definition getInputArcs :: "net \<Rightarrow> string \<Rightarrow> arc list" where
  "getInputArcs n tid = filter (\<lambda>a. target a = tid) (arcs n)"

definition getOutputArcs :: "net \<Rightarrow> string \<Rightarrow> arc list" where
  "getOutputArcs n tid = filter (\<lambda>a. source a = tid) (arcs n)"

text \<open>The test \<open>!arc.pattern || arc.pattern(token)\<close>.\<close>

definition arcAccepts :: "arc \<Rightarrow> token \<Rightarrow> bool" where
  "arcAccepts a t = (case pattern a of None \<Rightarrow> True | Some p \<Rightarrow> p t)"

definition variableName :: "arc \<Rightarrow> string" where
  "variableName a = source a @ ''_token''"

text \<open>
  \<open>checkBinding\<close> is the recursive closure of \<open>findValidBindings\<close>. The arc index is
  the list of arcs still to bind; \<open>checkTokens\<close> is its \<open>for\<close> loop over the tokens
  of the arc's place. The closure mutates one shared \<open>currentBinding\<close> object, so the
  object is threaded through and returned; the bindings pushed are returned in order.
\<close>

fun checkBinding :: "(string \<times> place) list \<Rightarrow> arc list \<Rightarrow> binding \<Rightarrow> binding list \<times> binding"
  and checkTokens :: "(string \<times> place) list \<Rightarrow> arc \<Rightarrow> arc list \<Rightarrow> token list \<Rightarrow> binding
                       \<Rightarrow> binding list \<times> binding"
where
  "checkBinding ps [] cur = ([cur], cur)"
| "checkBinding ps (a # rest) cur =
     (case map_of ps (source a) of
        None \<Rightarrow> ([], cur)
      | Some p \<Rightarrow> checkTokens ps a rest (tokens p) cur)"
| "checkTokens ps a rest [] cur = ([], cur)"
| "checkTokens ps a rest (t # ts) cur =
     (if arcAccepts a t then
        (case checkBinding ps rest (AList.update (variableName a) (color t) cur) of
           (found, cur2) \<Rightarrow>
             (case checkTokens ps a rest ts (AList.delete (variableName a) cur2) of
                (found', cur4) \<Rightarrow> (found @ found', cur4)))
      else checkTokens ps a rest ts cur)"

definition findValidBindings :: "net \<Rightarrow> arc list \<Rightarrow> binding list" where
  "findValidBindings n inputArcs =
     (if length inputArcs = 0 then [[]] else fst (checkBinding (places n) inputArcs []))"

section \<open>Confidence scoring and hints\<close>

text \<open>\<open>String.prototype.split\<close> with a one-character separator.\<close>

fun splitOn :: "char \<Rightarrow> string \<Rightarrow> string list" where
  "splitOn c [] = [[]]"
| "splitOn c (x # xs) =
     (if x = c then [] # splitOn c xs
      else (case splitOn c xs of [] \<Rightarrow> [[x]] | w # ws \<Rightarrow> (x # w) # ws))"

definition calculateConfidence :: "transition \<Rightarrow> binding \<Rightarrow> rat" where
  "calculateConfidence t b =
     (let c0 = 1 / 2;
          bindingSize = length (map fst b);
          c1 = (if bindingSize > 0 then c0 + (1 / 10) * of_nat bindingSize else c0);
          parts = splitOn CHR '':'' (transition_name t);
          c2 = (if length parts = 3 then c1 + 1 / 5 else c1)
      in min c2 1)"

definition generateExample :: "transition \<Rightarrow> binding \<Rightarrow> string" where
  "generateExample t b =
     (let parts = splitOn CHR '':'' (transition_name t) in
      if length parts = 2 then parts ! 0 @ ''(\"'' @ parts ! 1 @ ''\")''
      else if length parts = 3 then parts ! 0 @ ''(\"'' @ parts ! 1 @ ''\", \"'' @ parts ! 2 @ ''\")''
      else transition_name t)"

definition guardAccepts :: "transition \<Rightarrow> binding \<Rightarrow> bool" where
  "guardAccepts t b = (case guard t of None \<Rightarrow> True | Some g \<Rightarrow> g b)"

definition mkHint :: "transition \<Rightarrow> binding \<Rightarrow> hint" where
  "mkHint t b =
     \<lparr>transitionId = transition_id t,
      transitionName = transition_name t,
      description = transition_description t,
      confidence = calculateConfidence t b,
      requiredTokens = map fst b,
      example = generateExample t b\<rparr>"

definition transitionHints :: "net \<Rightarrow> transition \<Rightarrow> hint list" where
  "transitionHints n t =
     map (mkHint t) (filter (guardAccepts t) (findValidBindings n (getInputArcs n (transition_id t))))"

text \<open>
  \<open>hints.sort((a, b) => b.confidence - a.confidence)\<close>: a stable sort by descending
  confidence.
\<close>

definition getEnabledTransitions :: "net \<Rightarrow> hint list" where
  "getEnabledTransitions n =
     sort_key (\<lambda>h. - confidence h) (concat (map (\<lambda>(k, t). transitionHints n t) (transitions n)))"

section \<open>Firing\<close>

text \<open>\<open>findIndex\<close> followed by \<open>splice(index, 1)\<close> when an index was found.\<close>

fun removeFirst :: "('a \<Rightarrow> bool) \<Rightarrow> 'a list \<Rightarrow> 'a list" where
  "removeFirst P [] = []"
| "removeFirst P (x # xs) = (if P x then xs else x # removeFirst P xs)"

text \<open>\<open>arc.weight || 1\<close>, and how often a loop \<open>for (i = 0; i < w; i++)\<close> runs.\<close>

definition arcWeight :: "arc \<Rightarrow> nat" where
  "arcWeight a = (case weight a of None \<Rightarrow> 1 | Some w \<Rightarrow> if w = 0 then 1 else nat w)"

definition consumeArc :: "net \<Rightarrow> arc \<Rightarrow> net" where
  "consumeArc n a =
     (case map_of (places n) (source a) of
        None \<Rightarrow> n
      | Some p \<Rightarrow>
          n\<lparr>places := AList.update (source a)
                (p\<lparr>tokens := (removeFirst (arcAccepts a) ^^ arcWeight a) (tokens p)\<rparr>) (places n)\<rparr>)"

definition consumeInputs :: "net \<Rightarrow> arc list \<Rightarrow> net" where
  "consumeInputs n inputArcs = foldl consumeArc n inputArcs"

text \<open>
  The production loops call \<open>addToken\<close>, which throws when the target place is
  missing; the tokens minted before that stay, so the state is returned with the error.
\<close>

fun addTokenTimes :: "nat \<Rightarrow> string \<Rightarrow> val \<Rightarrow> net \<Rightarrow> error option \<times> net" where
  "addTokenTimes 0 placeId c n = (None, n)"
| "addTokenTimes (Suc k) placeId c n =
     (case addToken n placeId c of
        Inl e \<Rightarrow> (Some e, n)
      | Inr (tokenId, n') \<Rightarrow> addTokenTimes k placeId c n')"

definition tokenColor :: "arc \<Rightarrow> val \<Rightarrow> val" where
  "tokenColor a result = (case expression a of None \<Rightarrow> result | Some f \<Rightarrow> f result)"

fun produceOutputs :: "arc list \<Rightarrow> val \<Rightarrow> net \<Rightarrow> error option \<times> net" where
  "produceOutputs [] result n = (None, n)"
| "produceOutputs (a # rest) result n =
     (case addTokenTimes (arcWeight a) (target a) (tokenColor a result) n of
        (Some e, n') \<Rightarrow> (Some e, n')
      | (None, n') \<Rightarrow> produceOutputs rest result n')"

definition notEnabledMessage :: "string \<Rightarrow> string" where
  "notEnabledMessage tid = ''Transition '' @ tid @ '' is not enabled''"

definition guardFailedMessage :: "string \<Rightarrow> string" where
  "guardFailedMessage tid = ''Guard condition failed for transition '' @ tid"

text \<open>
  \<open>fireTransition\<close> returns what the promise settles with, and the state of the net
  at that moment. The second argument is the optional \<open>selectedBinding\<close>. Its steps:
  \<open>candidateBindings\<close> is the list \<open>bindings\<close>; \<open>runHandler\<close> is the awaited handler call,
  the binding itself when there is no handler; \<open>commitFiring\<close> is everything after the
  guard check: consumption, handler, production.
\<close>

definition candidateBindings :: "net \<Rightarrow> string \<Rightarrow> binding option \<Rightarrow> binding list" where
  "candidateBindings n tid selectedBinding =
     (case selectedBinding of
        Some b \<Rightarrow> [b]
      | None \<Rightarrow> findValidBindings n (getInputArcs n tid))"

definition runHandler :: "transition \<Rightarrow> binding \<Rightarrow> val + val" where
  "runHandler t b = (case handler t of None \<Rightarrow> Inr (VObj b) | Some h \<Rightarrow> h b)"

definition commitFiring :: "net \<Rightarrow> string \<Rightarrow> transition \<Rightarrow> binding \<Rightarrow> (error + val) \<times> net" where
  "commitFiring n tid t b =
     (let n1 = consumeInputs n (getInputArcs n tid) in
      case runHandler t b of
        Inl reason \<Rightarrow> (Inl (HandlerRejection reason), n1)
      | Inr result \<Rightarrow>
          (case produceOutputs (getOutputArcs n1 tid) result n1 of
             (Some e, n2) \<Rightarrow> (Inl e, n2)
           | (None, n2) \<Rightarrow> (Inr result, n2)))"

definition fireTransition :: "net \<Rightarrow> string \<Rightarrow> binding option \<Rightarrow> (error + val) \<times> net" where
  "fireTransition n tid selectedBinding =
     (case map_of (transitions n) tid of
        None \<Rightarrow> (Inl (Error (''Transition '' @ tid @ '' not found'')), n)
      | Some t \<Rightarrow>
          (case candidateBindings n tid selectedBinding of
             [] \<Rightarrow> (Inl (TransitionNotEnabledError (notEnabledMessage tid)
                           (transition_name t) (getEnabledTransitions n)), n)
           | b # _ \<Rightarrow>
               if \<not> guardAccepts t b
               then (Inl (TransitionNotEnabledError (guardFailedMessage tid)
                           (transition_name t) (getEnabledTransitions n)), n)
               else commitFiring n tid t b))"

definition placeTokens :: "net \<Rightarrow> string \<Rightarrow> token list" where
  "placeTokens n placeId = (case map_of (places n) placeId of None \<Rightarrow> [] | Some p \<Rightarrow> tokens p)"

text \<open>
  \<open>getState\<close> as the engine's own operations see it: the places, transitions and
  arcs in their order. What a caller can do to the objects it returns is the subject of
  the section on the heap below.
\<close>

record netState =
  statePlaces :: "place list"
  stateTransitions :: "transition list"
  stateArcs :: "arc list"

definition getState :: "net \<Rightarrow> netState" where
  "getState n =
     \<lparr>statePlaces = map snd (places n),
      stateTransitions = map snd (transitions n),
      stateArcs = arcs n\<rparr>"

section \<open>The binding search as a choice of one token per arc\<close>

text \<open>
  The tokens an arc can bind, in the FIFO order of its place, and the ways to pick one
  of them for every arc, first arc outermost. \<open>bindChoice\<close> writes the picked colours
  into a binding, arc by arc, a later arc overwriting an earlier one of the same place.
\<close>

definition arcCandidates :: "(string \<times> place) list \<Rightarrow> arc \<Rightarrow> token list" where
  "arcCandidates ps a =
     (case map_of ps (source a) of None \<Rightarrow> [] | Some p \<Rightarrow> filter (arcAccepts a) (tokens p))"

definition tokenChoices :: "net \<Rightarrow> arc list \<Rightarrow> token list list" where
  "tokenChoices n inputArcs = product_lists (map (arcCandidates (places n)) inputArcs)"

fun bindChoice :: "arc list \<Rightarrow> token list \<Rightarrow> (string \<rightharpoonup> val) \<Rightarrow> (string \<rightharpoonup> val)" where
  "bindChoice (a # rest) (t # ts) m = bindChoice rest ts (m(variableName a \<mapsto> color t))"
| "bindChoice _ _ m = m"

section \<open>The heap: what \<open>getState\<close> hands out\<close>

text \<open>
  A \<open>Place\<close> is a JavaScript object and the engine's \<open>Map\<close> holds references to such
  objects. \<open>Array.from(this.places.values())\<close> builds a new array of the same
  references. The heap below holds the \<open>Place\<close> objects (each with its token array);
  \<open>netOf\<close> reads the engine's state off the heap, and this is the state all operations
  above work on.
\<close>

type_synonym ref = nat

record world =
  objects :: "ref \<Rightarrow> place"
  placeRefs :: "(string \<times> ref) list"
  worldTransitions :: "(string \<times> transition) list"
  worldArcs :: "arc list"
  worldCounter :: nat

definition netOf :: "world \<Rightarrow> net" where
  "netOf w =
     \<lparr>places = map (\<lambda>(k, r). (k, objects w r)) (placeRefs w),
      transitions = worldTransitions w,
      arcs = worldArcs w,
      tokenCounter = worldCounter w\<rparr>"

record snapshot =
  snapPlaces :: "ref list"
  snapTransitions :: "transition list"
  snapArcs :: "arc list"

definition getStateRefs :: "world \<Rightarrow> snapshot" where
  "getStateRefs w =
     \<lparr>snapPlaces = map snd (placeRefs w),
      snapTransitions = map snd (worldTransitions w),
      snapArcs = worldArcs w\<rparr>"



section \<open>Contextual hints and path discovery\<close>

definition checkTransitionEnabled :: "netState \<Rightarrow> string \<Rightarrow> bool" where
  "checkTransitionEnabled st tid =
     list_all
       (\<lambda>a. case List.find (\<lambda>p. place_id p = source a) (statePlaces st) of
               None \<Rightarrow> False
             | Some p \<Rightarrow> length (tokens p) \<noteq> 0)
       (filter (\<lambda>a. target a = tid) (stateArcs st))"

definition getInputPlaces :: "netState \<Rightarrow> string \<Rightarrow> string list" where
  "getInputPlaces st tid = map source (filter (\<lambda>a. target a = tid) (stateArcs st))"

text \<open>\<open>[...new Set(path)]\<close>: the first occurrence of every name, in order.\<close>

definition uniq :: "'a list \<Rightarrow> 'a list" where
  "uniq xs = foldl (\<lambda>acc x. if x \<in> set acc then acc else acc @ [x]) [] xs"

text \<open>
  \<open>findPathToFulfill\<close> calls itself with no bound, so the model counts the depth of
  the recursion: \<open>None\<close> is a call that needs more nested calls than the fuel given.
  A call that returns does so with every larger fuel; a call that is \<open>None\<close> for every
  fuel never returns. \<open>pathArcs\<close> and \<open>pathPlaces\<close> are the two \<open>for\<close> loops, with the
  recursive call passed in.
\<close>

fun pathArcs :: "(string list \<Rightarrow> string list option) \<Rightarrow> netState \<Rightarrow> arc list \<Rightarrow> string list
                  \<Rightarrow> string list option" where
  "pathArcs recur st [] path = Some path"
| "pathArcs recur st (a # rest) path =
     (case List.find (\<lambda>t. transition_id t = source a) (stateTransitions st) of
        None \<Rightarrow> pathArcs recur st rest path
      | Some t \<Rightarrow>
          if checkTransitionEnabled st (transition_id t)
          then pathArcs recur st rest (path @ [transition_name t])
          else (case recur (getInputPlaces st (transition_id t)) of
                  None \<Rightarrow> None
                | Some priorPath \<Rightarrow> pathArcs recur st rest (path @ priorPath @ [transition_name t])))"

fun pathPlaces :: "(string list \<Rightarrow> string list option) \<Rightarrow> netState \<Rightarrow> string list \<Rightarrow> string list
                    \<Rightarrow> string list option" where
  "pathPlaces recur st [] path = Some path"
| "pathPlaces recur st (placeId # rest) path =
     (case pathArcs recur st (filter (\<lambda>a. target a = placeId) (stateArcs st)) path of
        None \<Rightarrow> None
      | Some path' \<Rightarrow> pathPlaces recur st rest path')"

primrec findPathToFulfill :: "nat \<Rightarrow> netState \<Rightarrow> string list \<Rightarrow> string list option" where
  "findPathToFulfill 0 st targetPlaces = None"
| "findPathToFulfill (Suc fuel) st targetPlaces =
     map_option uniq (pathPlaces (findPathToFulfill fuel st) st targetPlaces [])"

definition placeDescriptions :: "(string \<times> string) list" where
  "placeDescriptions =
     [(''file_found'', ''a found file''),
      (''file_read'', ''file content''),
      (''search_results'', ''search results''),
      (''file_written'', ''a written file''),
      (''start'', ''initial state'')]"

text \<open>\<open>placeDescriptions[place.id] || place.name || place.id\<close>: an empty string is falsy.\<close>

definition humanReadablePlace :: "place option \<Rightarrow> string" where
  "humanReadablePlace po =
     (case po of
        None \<Rightarrow> ''unknown requirement''
      | Some p \<Rightarrow>
          (case map_of placeDescriptions (place_id p) of
             Some d \<Rightarrow> d
           | None \<Rightarrow> if place_name p \<noteq> [] then place_name p else place_id p))"

fun joinWith :: "string \<Rightarrow> string list \<Rightarrow> string" where
  "joinWith sep [] = []"
| "joinWith sep [x] = x"
| "joinWith sep (x # y # rest) = x @ sep @ joinWith sep (y # rest)"

text \<open>The separator of the path is an arrow (U+2192, three bytes) between two spaces.\<close>

definition buildReadableHint :: "transition \<Rightarrow> string list \<Rightarrow> string list \<Rightarrow> string" where
  "buildReadableHint t missingRequirements suggestedPath =
     (if length missingRequirements = 0 then transition_name t @ '' is ready to execute''
      else transition_name t @ '' needs: '' @ joinWith '', '' missingRequirements
             @ [CHR 0x0A] @ ''Try instead: '' @ joinWith [CHR 0x20, CHR 0xE2, CHR 0x86, CHR 0x92, CHR 0x20] suggestedPath)"

record contextualHint =
  missingRequirements :: "string list"
  suggestedPath :: "string list"
  readable :: string

definition missingPlacesOf :: "netState \<Rightarrow> string \<Rightarrow> string list" where
  "missingPlacesOf st tid =
     List.map_filter
       (\<lambda>a. case List.find (\<lambda>p. place_id p = source a) (statePlaces st) of
               None \<Rightarrow> None
             | Some p \<Rightarrow> if length (tokens p) = 0 then Some (place_id p) else None)
       (filter (\<lambda>a. target a = tid) (stateArcs st))"

definition generateContextualHint :: "nat \<Rightarrow> net \<Rightarrow> string \<Rightarrow> contextualHint option" where
  "generateContextualHint fuel n desiredTransitionId =
     (let st = getState n in
      case List.find (\<lambda>t. transition_id t = desiredTransitionId) (stateTransitions st) of
        None \<Rightarrow> Some \<lparr>missingRequirements = [], suggestedPath = [], readable = ''Unknown transition''\<rparr>
      | Some t \<Rightarrow>
          (let missingPlaces = missingPlacesOf st desiredTransitionId;
               reqs = map (\<lambda>placeId. humanReadablePlace
                             (List.find (\<lambda>p. place_id p = placeId) (statePlaces st))) missingPlaces
           in case findPathToFulfill fuel st missingPlaces of
                None \<Rightarrow> None
              | Some path \<Rightarrow>
                  Some \<lparr>missingRequirements = reqs, suggestedPath = path,
                        readable = buildReadableHint t reqs path\<rparr>))"

section \<open>Example nets\<close>

text \<open>
  Property access and object spread of the handlers in the examples. \<open>seed\<close> is a
  call of \<open>addToken\<close> whose returned id is dropped.
\<close>

definition propOf :: "binding \<Rightarrow> string \<Rightarrow> val" where
  "propOf b k = (case map_of b k of None \<Rightarrow> VUndefined | Some v \<Rightarrow> v)"

definition objGet :: "val \<Rightarrow> string \<Rightarrow> val" where
  "objGet v k = (case v of VObj kvs \<Rightarrow> propOf kvs k | _ \<Rightarrow> VUndefined)"

definition withProps :: "val \<Rightarrow> (string \<times> val) list \<Rightarrow> val" where
  "withProps v kvs = VObj (fold (\<lambda>(k, x). AList.update k x) kvs (case v of VObj kv \<Rightarrow> kv | _ \<Rightarrow> []))"

fun truthy :: "val \<Rightarrow> bool" where
  "truthy VUndefined = False"
| "truthy (VBool b) = b"
| "truthy (VNum i) = (i \<noteq> 0)"
| "truthy (VStr s) = (s \<noteq> [])"
| "truthy (VArr _) = True"
| "truthy (VObj _) = True"

definition seed :: "net \<Rightarrow> string \<Rightarrow> val \<Rightarrow> net" where
  "seed n placeId c = (case addToken n placeId c of Inl _ \<Rightarrow> n | Inr (_, n') \<Rightarrow> n')"

definition mkPlace :: "string \<Rightarrow> string \<Rightarrow> place" where
  "mkPlace i nm = \<lparr>place_id = i, place_name = nm, place_description = None, tokens = []\<rparr>"

definition mkArc :: "string \<Rightarrow> string \<Rightarrow> string \<Rightarrow> arc" where
  "mkArc i s t = \<lparr>arc_id = i, source = s, target = t, weight = None, pattern = None, expression = None\<rparr>"

text \<open>The task workflow of the demonstration file: four places, four transitions, eight arcs.\<close>

definition startTask :: transition where
  "startTask =
     \<lparr>transition_id = ''start_task'', transition_name = ''start:task'',
      transition_description = Some ''Start working on a task'', guard = None,
      handler = Some (\<lambda>b. Inr (withProps (propOf b ''backlog_token'') [(''status'', VStr ''in_progress'')]))\<rparr>"

definition completeTask :: transition where
  "completeTask =
     \<lparr>transition_id = ''complete_task'', transition_name = ''complete:task'',
      transition_description = Some ''Mark task as complete and ready for review'', guard = None,
      handler = Some (\<lambda>b. Inr (withProps (propOf b ''in_progress_token'') [(''status'', VStr ''review'')]))\<rparr>"

definition reviewApprove :: transition where
  "reviewApprove =
     \<lparr>transition_id = ''review_approve'', transition_name = ''review:task:approve'',
      transition_description = Some ''Approve the task in review'', guard = None,
      handler = Some (\<lambda>b. Inr (withProps (propOf b ''review_token'')
                                [(''status'', VStr ''done''), (''approved'', VBool True)]))\<rparr>"

definition reviewReject :: transition where
  "reviewReject =
     \<lparr>transition_id = ''review_reject'', transition_name = ''review:task:reject'',
      transition_description = Some ''Reject the task and send back to in progress'', guard = None,
      handler = Some (\<lambda>b. Inr (withProps (propOf b ''review_token'')
                                [(''status'', VStr ''in_progress''), (''rejected'', VBool True)]))\<rparr>"

definition taskNet :: net where
  "taskNet =
     \<lparr>places = [(''backlog'', mkPlace ''backlog'' ''Backlog''),
                (''in_progress'', mkPlace ''in_progress'' ''In Progress''),
                (''review'', mkPlace ''review'' ''In Review''),
                (''done'', mkPlace ''done'' ''Done'')],
      transitions = [(''start_task'', startTask), (''complete_task'', completeTask),
                     (''review_approve'', reviewApprove), (''review_reject'', reviewReject)],
      arcs = [mkArc ''a1'' ''backlog'' ''start_task'',
              mkArc ''a2'' ''start_task'' ''in_progress'',
              mkArc ''a3'' ''in_progress'' ''complete_task'',
              mkArc ''a4'' ''complete_task'' ''review'',
              mkArc ''a5'' ''review'' ''review_approve'',
              mkArc ''a6'' ''review'' ''review_reject'',
              mkArc ''a7'' ''review_approve'' ''done'',
              mkArc ''a8'' ''review_reject'' ''in_progress''],
      tokenCounter = 0\<rparr>"

text \<open>The demonstration's seeding: two tasks in the backlog, one in progress.\<close>

definition task1 :: val where
  "task1 = VObj [(''id'', VNum 1), (''title'', VStr ''Implement login''), (''priority'', VStr ''high'')]"

definition task2 :: val where
  "task2 = VObj [(''id'', VNum 2), (''title'', VStr ''Fix bug #123''), (''priority'', VStr ''medium'')]"

definition task3 :: val where
  "task3 = VObj [(''id'', VNum 3), (''title'', VStr ''Update README''), (''priority'', VStr ''low'')]"

definition demoNet :: net where
  "demoNet = seed (seed (seed taskNet ''backlog'' task1) ''backlog'' task2) ''in_progress'' task3"



text \<open>
  A part of the file operations example: reading a found file, then writing or modifying
  it. An \<open>Error\<close> thrown by a handler is represented by its message; the handlers are
  written out for string paths and contents, which is all the examples use.
\<close>

definition textOf :: "val \<Rightarrow> string" where
  "textOf v = (case v of VStr s \<Rightarrow> s | _ \<Rightarrow> [])"

definition readFile :: transition where
  "readFile =
     \<lparr>transition_id = ''read_file'', transition_name = ''read:file'',
      transition_description = Some ''Read file content'', guard = None,
      handler = Some (\<lambda>b.
        let fileToken = propOf b ''file_found_token'' in
        if \<not> truthy fileToken \<or> \<not> truthy (objGet fileToken ''path'')
        then Inl (VStr ''No file token found. You must find a file first using search:files'')
        else Inr (VObj [(''path'', objGet fileToken ''path''),
                        (''content'', VStr (''// Content of '' @ textOf (objGet fileToken ''path''))),
                        (''exists'', VBool True)]))\<rparr>"

definition writeFile :: transition where
  "writeFile =
     \<lparr>transition_id = ''write_file'', transition_name = ''write:file'',
      transition_description = Some ''Write content to file'', guard = None,
      handler = Some (\<lambda>b.
        let fileToken = propOf b ''file_read_token'' in
        Inr (VObj [(''path'', objGet fileToken ''path''),
                   (''content'', objGet fileToken ''content''),
                   (''exists'', VBool True)]))\<rparr>"

definition modifyWrite :: transition where
  "modifyWrite =
     \<lparr>transition_id = ''modify_write'', transition_name = ''modify:file:write'',
      transition_description = Some ''Modify and write file content'',
      guard = Some (\<lambda>b. objGet (propOf b ''file_read_token'') ''content'' \<noteq> VUndefined),
      handler = Some (\<lambda>b.
        let fileToken = propOf b ''file_read_token'' in
        Inr (VObj [(''path'', objGet fileToken ''path''),
                   (''content'', VStr (textOf (objGet fileToken ''content'') @ '' // Modified by AI'')),
                   (''exists'', VBool True)]))\<rparr>"

definition fileNet :: net where
  "fileNet =
     \<lparr>places = [(''file_found'', mkPlace ''file_found'' ''File Found''),
                (''file_read'', mkPlace ''file_read'' ''File Read''),
                (''file_written'', mkPlace ''file_written'' ''File Written'')],
      transitions = [(''read_file'', readFile), (''write_file'', writeFile),
                     (''modify_write'', modifyWrite)],
      arcs = [mkArc ''found_to_read'' ''file_found'' ''read_file'',
              mkArc ''read_to_content'' ''read_file'' ''file_read'',
              mkArc ''content_to_modify'' ''file_read'' ''modify_write'',
              mkArc ''content_to_write'' ''file_read'' ''write_file'',
              mkArc ''write_to_written'' ''write_file'' ''file_written'',
              mkArc ''modify_to_written'' ''modify_write'' ''file_written''],
      tokenCounter = 0\<rparr>"

text \<open>A found file whose token carries no path: the handler of \<open>read:file\<close> rejects it.\<close>

definition pathlessNet :: net where
  "pathlessNet = seed fileNet ''file_found'' (VObj [])"

text \<open>Two files read, the first without content: the guard of \<open>modify:file:write\<close>
  rejects the first binding and accepts the second.\<close>

definition bareFile :: val where
  "bareFile = VObj [(''path'', VStr ''a.ts'')]"

definition fullFile :: val where
  "fullFile = VObj [(''path'', VStr ''b.ts''), (''content'', VStr ''x'')]"

definition twoFilesNet :: net where
  "twoFilesNet = seed (seed fileNet ''file_read'' bareFile) ''file_read'' fullFile"

text \<open>A place with one token, read by two arcs of the same transition.\<close>

definition joinNet :: net where
  "joinNet =
     seed \<lparr>places = [(''p'', mkPlace ''p'' ''P'')],
           transitions = [(''join'', \<lparr>transition_id = ''join'', transition_name = ''join:pair'',
                                     transition_description = None, guard = None, handler = None\<rparr>)],
           arcs = [mkArc ''left'' ''p'' ''join'', mkArc ''right'' ''p'' ''join''],
           tokenCounter = 0\<rparr>
          ''p'' (VNum 7)"




text \<open>Whether a place id is a key of the \<open>Map\<close> of places.\<close>

definition hasPlace :: "net \<Rightarrow> string \<Rightarrow> bool" where
  "hasPlace n placeId = (map_of (places n) placeId \<noteq> None)"

section \<open>Evaluation of the example nets\<close>

lemma digitChar_eval:
  "digitChar 0 = CHR ''0''" "digitChar 1 = CHR ''1''" "digitChar (Suc 0) = CHR ''1''"
  "digitChar 2 = CHR ''2''" "digitChar 3 = CHR ''3''" "digitChar 4 = CHR ''4''"
  "digitChar 5 = CHR ''5''" "digitChar 6 = CHR ''6''" "digitChar 7 = CHR ''7''"
  "digitChar 8 = CHR ''8''" "digitChar 9 = CHR ''9''"
  "digitChar (Suc (Suc 0)) = CHR ''2''" "digitChar (Suc (Suc (Suc 0))) = CHR ''3''"
  by code_simp+

lemmas net_eval =
  Let_def seed_def addToken_def taskNet_def mkPlace_def mkArc_def findValidBindings_def
  getInputArcs_def getOutputArcs_def arcAccepts_def variableName_def tokenName_def
  showNat.simps digitChar_eval startTask_def completeTask_def reviewApprove_def reviewReject_def

lemma taskNet_transition_fields:
  "transition_id startTask = ''start_task''" "transition_id completeTask = ''complete_task''"
  "transition_id reviewApprove = ''review_approve''" "transition_id reviewReject = ''review_reject''"
  "guard startTask = None" "guard completeTask = None"
  "guard reviewApprove = None" "guard reviewReject = None"
  "transition_name startTask = ''start:task''" "transition_name completeTask = ''complete:task''"
  "transition_name reviewApprove = ''review:task:approve''"
  "transition_name reviewReject = ''review:task:reject''"
  by (simp_all add: startTask_def completeTask_def reviewApprove_def reviewReject_def)

lemma demoNet_transitions: "transitions demoNet = transitions taskNet"
  by (simp add: demoNet_def Let_def seed_def addToken_def taskNet_def mkPlace_def)

lemma demoNet_bindings:
  "findValidBindings demoNet (getInputArcs demoNet ''start_task'')
     = [[(''backlog_token'', task1)], [(''backlog_token'', task2)]]"
  "findValidBindings demoNet (getInputArcs demoNet ''complete_task'') = [[(''in_progress_token'', task3)]]"
  "findValidBindings demoNet (getInputArcs demoNet ''review_approve'') = []"
  "findValidBindings demoNet (getInputArcs demoNet ''review_reject'') = []"
  by (simp_all add: demoNet_def net_eval)

lemma demoNet_hints_unsorted:
  "concat (map (\<lambda>(k, t). transitionHints demoNet t) (transitions demoNet)) =
     [mkHint startTask [(''backlog_token'', task1)], mkHint startTask [(''backlog_token'', task2)],
      mkHint completeTask [(''in_progress_token'', task3)]]"
  unfolding demoNet_transitions
  by (simp add: taskNet_def transitionHints_def taskNet_transition_fields demoNet_bindings
      guardAccepts_def [abs_def])

lemma demoNet_confidences:
  "confidence (mkHint startTask [b]) = 3 / 5" "confidence (mkHint completeTask [b]) = 3 / 5"
  by (simp_all add: mkHint_def calculateConfidence_def startTask_def completeTask_def)

lemma demoNet_hints:
  "getEnabledTransitions demoNet =
     [mkHint startTask [(''backlog_token'', task1)], mkHint startTask [(''backlog_token'', task2)],
      mkHint completeTask [(''in_progress_token'', task3)]]"
  unfolding getEnabledTransitions_def demoNet_hints_unsorted
  by (simp add: demoNet_confidences)

lemma sorted_hints: "sorted (map (\<lambda>h. - confidence h) (getEnabledTransitions n))"
  unfolding getEnabledTransitions_def by (rule sorted_sort_key)

section \<open>Token ids\<close>




lemma addToken_counter:
  "addToken n p c = Inr (i, n') \<Longrightarrow>
     tokenCounter n' = Suc (tokenCounter n) \<and> i = tokenName (Suc (tokenCounter n))"
  by (auto simp: addToken_def Let_def split: option.splits)

text \<open>No operation of the engine ever lowers the counter.\<close>

lemma tokenCounter_addPlace: "tokenCounter (addPlace n p) = tokenCounter n"
  by (simp add: addPlace_def)

lemma tokenCounter_addTransition: "tokenCounter (addTransition n t) = tokenCounter n"
  by (simp add: addTransition_def)

lemma tokenCounter_addArc: "tokenCounter (addArc n a) = tokenCounter n"
  by (simp add: addArc_def)

lemma tokenCounter_consumeArc: "tokenCounter (consumeArc n a) = tokenCounter n"
  by (simp add: consumeArc_def split: option.splits)

lemma tokenCounter_consumeInputs: "tokenCounter (consumeInputs n as) = tokenCounter n"
  unfolding consumeInputs_def
  by (induction as arbitrary: n) (simp_all add: tokenCounter_consumeArc)

lemma tokenCounter_addTokenTimes: "tokenCounter n \<le> tokenCounter (snd (addTokenTimes k p c n))"
proof (induction k arbitrary: n)
  case 0
  then show ?case by simp
next
  case (Suc k)
  show ?case
  proof (cases "addToken n p c")
    case (Inl e)
    then show ?thesis by simp
  next
    case (Inr r)
    obtain i n' where r: "r = (i, n')" by (cases r)
    from Inr r have "tokenCounter n' = Suc (tokenCounter n)" by (simp add: addToken_counter)
    moreover have "tokenCounter n' \<le> tokenCounter (snd (addTokenTimes k p c n'))" by (rule Suc.IH)
    ultimately show ?thesis using Inr r by simp
  qed
qed

lemma tokenCounter_produceOutputs: "tokenCounter n \<le> tokenCounter (snd (produceOutputs as r n))"
proof (induction as arbitrary: n)
  case Nil
  then show ?case by simp
next
  case (Cons a as)
  obtain e n' where s: "addTokenTimes (arcWeight a) (target a) (tokenColor a r) n = (e, n')"
    by (cases "addTokenTimes (arcWeight a) (target a) (tokenColor a r) n")
  have le: "tokenCounter n \<le> tokenCounter n'"
    using tokenCounter_addTokenTimes [of n "arcWeight a" "target a" "tokenColor a r"] s by simp
  show ?case
  proof (cases e)
    case None
    with s le Cons.IH [of n'] show ?thesis by simp
  next
    case (Some x)
    with s le show ?thesis by simp
  qed
qed

lemma tokenCounter_commitFiring: "tokenCounter n \<le> tokenCounter (snd (commitFiring n tid t b))"
proof -
  define n1 where "n1 = consumeInputs n (getInputArcs n tid)"
  have c: "tokenCounter n1 = tokenCounter n"
    by (simp add: n1_def tokenCounter_consumeInputs)
  show ?thesis
  proof (cases "runHandler t b")
    case (Inl reason)
    then show ?thesis by (simp add: commitFiring_def Let_def tokenCounter_consumeInputs)
  next
    case (Inr result)
    obtain e n2 where pr: "produceOutputs (getOutputArcs n1 tid) result n1 = (e, n2)"
      by (cases "produceOutputs (getOutputArcs n1 tid) result n1")
    have "tokenCounter n1 \<le> tokenCounter n2"
      using tokenCounter_produceOutputs [of n1 "getOutputArcs n1 tid" result] pr by simp
    with c Inr pr show ?thesis
      by (cases e) (simp_all add: commitFiring_def Let_def n1_def)
  qed
qed

lemma tokenCounter_fireTransition:
  "tokenCounter n \<le> tokenCounter (snd (fireTransition n tid sel))"
  by (simp add: fireTransition_def tokenCounter_commitFiring split: option.splits list.splits)



section \<open>Firing without a candidate binding\<close>

text \<open>
  Claim C8. When the transition exists, no binding was supplied and the binding search
  returns the empty list, \<open>fireTransition\<close> throws the \<open>TransitionNotEnabledError\<close>
  that carries the transition's name and the hints of \<open>getEnabledTransitions\<close> on the
  current state, sorted by descending confidence, and the net is left as it was.
\<close>

theorem fireTransition_no_binding:
  assumes "map_of (transitions n) tid = Some t"
    and "findValidBindings n (getInputArcs n tid) = []"
  shows "fireTransition n tid None =
           (Inl (TransitionNotEnabledError (notEnabledMessage tid)
                   (transition_name t) (getEnabledTransitions n)), n)
         \<and> sorted (map (\<lambda>h. - confidence h) (getEnabledTransitions n))"
  using assms
  by (simp add: fireTransition_def candidateBindings_def sorted_hints)

theorem fireTransition_no_binding_witness:
  "map_of (transitions demoNet) ''review_approve'' = Some reviewApprove
   \<and> findValidBindings demoNet (getInputArcs demoNet ''review_approve'') = []
   \<and> fireTransition demoNet ''review_approve'' None =
       (Inl (TransitionNotEnabledError ''Transition review_approve is not enabled''
               ''review:task:approve''
               [mkHint startTask [(''backlog_token'', task1)],
                mkHint startTask [(''backlog_token'', task2)],
                mkHint completeTask [(''in_progress_token'', task3)]]), demoNet)"
proof -
  have h1: "map_of (transitions demoNet) ''review_approve'' = Some reviewApprove"
    by (simp add: demoNet_transitions taskNet_def)
  have h2: "findValidBindings demoNet (getInputArcs demoNet ''review_approve'') = []"
    by (rule demoNet_bindings)
  from fireTransition_no_binding [OF h1 h2] h1 h2 show ?thesis
    by (simp add: notEnabledMessage_def taskNet_transition_fields demoNet_hints)
qed

section \<open>Confidence of the emitted hints\<close>

lemma set_getEnabledTransitions:
  "set (getEnabledTransitions n) = (\<Union>kt \<in> set (transitions n). set (transitionHints n (snd kt)))"
  by (auto simp: getEnabledTransitions_def)









section \<open>Construction of the net\<close>

text \<open>
  Claim C4, as the code has it. \<open>addPlace\<close>, \<open>addTransition\<close> and \<open>addArc\<close> never
  fail and check nothing: a place or transition is stored under its id, replacing in place
  whatever was stored under that id before, and an arc is appended whatever its endpoints
  are.
\<close>

theorem construction_never_fails:
  "map_of (places (addPlace n p)) (place_id p) = Some p
   \<and> map fst (places (addPlace n p))
       = (if place_id p \<in> set (map fst (places n)) then map fst (places n)
          else map fst (places n) @ [place_id p])
   \<and> map_of (transitions (addTransition n t)) (transition_id t) = Some t
   \<and> map fst (transitions (addTransition n t))
       = (if transition_id t \<in> set (map fst (transitions n)) then map fst (transitions n)
          else map fst (transitions n) @ [transition_id t])
   \<and> arcs (addArc n a) = arcs n @ [a]
   \<and> places (addArc n a) = places n
   \<and> transitions (addArc n a) = transitions n"
  by (simp add: addPlace_def addTransition_def addArc_def update_conv' update_keys)

text \<open>
  The claim as stated fails: an arc between two ids that name nothing is accepted by the
  empty net, an arc from a place to a place is accepted, and a second place with the id of
  the first silently replaces it.
\<close>

theorem construction_unchecked_counterexample:
  "arcs (addArc emptyNet (mkArc ''a'' ''nowhere'' ''nothing'')) = [mkArc ''a'' ''nowhere'' ''nothing'']
   \<and> map_of (places emptyNet) ''nowhere'' = None
   \<and> map_of (transitions emptyNet) ''nowhere'' = None
   \<and> map_of (places emptyNet) ''nothing'' = None
   \<and> map_of (transitions emptyNet) ''nothing'' = None
   \<and> arcs (addArc taskNet (mkArc ''pp'' ''backlog'' ''done'')) = arcs taskNet @ [mkArc ''pp'' ''backlog'' ''done'']
   \<and> places (addPlace (addPlace emptyNet (mkPlace ''p'' ''First'')) (mkPlace ''p'' ''Second''))
       = [(''p'', mkPlace ''p'' ''Second'')]"
  by (simp add: addArc_def addPlace_def emptyNet_def mkPlace_def)

section \<open>Consumption\<close>

lemma subseq_removeFirst: "subseq (removeFirst P xs) xs"
  by (induction xs) auto

lemma subseq_removeFirst_funpow: "subseq ((removeFirst P ^^ k) xs) xs"
proof (induction k)
  case 0
  then show ?case by simp
next
  case (Suc k)
  have "subseq (removeFirst P ((removeFirst P ^^ k) xs)) ((removeFirst P ^^ k) xs)"
    by (rule subseq_removeFirst)
  with Suc show ?case
    using subseq_order.trans by fastforce
qed

lemma placeTokens_consumeArc:
  "placeTokens (consumeArc n a) q =
     (if q = source a then (removeFirst (arcAccepts a) ^^ arcWeight a) (placeTokens n q)
      else placeTokens n q)"
proof (cases "map_of (places n) (source a)")
  case None
  have "(removeFirst (arcAccepts a) ^^ k) [] = []" for k
    by (induction k) simp_all
  with None show ?thesis
    by (simp add: consumeArc_def placeTokens_def)
next
  case (Some p)
  then show ?thesis
    by (simp add: consumeArc_def placeTokens_def update_conv')
qed

lemma subseq_consumeArc: "subseq (placeTokens (consumeArc n a) q) (placeTokens n q)"
  by (simp add: placeTokens_consumeArc subseq_removeFirst_funpow)

lemma subseq_consumeInputs: "subseq (placeTokens (consumeInputs n as) q) (placeTokens n q)"
  unfolding consumeInputs_def
proof (induction as arbitrary: n)
  case Nil
  then show ?case by simp
next
  case (Cons a as)
  have "subseq (placeTokens (foldl consumeArc (consumeArc n a) as) q) (placeTokens (consumeArc n a) q)"
    by (rule Cons.IH)
  then show ?case
    using subseq_consumeArc [of n a q] subseq_order.trans by fastforce
qed

lemma frame_consumeArc:
  "transitions (consumeArc n a) = transitions n" "arcs (consumeArc n a) = arcs n"
  "map fst (places (consumeArc n a)) = map fst (places n)"
  "hasPlace (consumeArc n a) q = hasPlace n q"
proof -
  show "transitions (consumeArc n a) = transitions n" "arcs (consumeArc n a) = arcs n"
    by (simp_all add: consumeArc_def split: option.splits)
  show "map fst (places (consumeArc n a)) = map fst (places n)"
  proof (cases "map_of (places n) (source a)")
    case None
    then show ?thesis by (simp add: consumeArc_def)
  next
    case (Some p)
    then have "source a \<in> fst ` set (places n)"
      by (metis domI dom_map_of_conv_image_fst)
    with Some show ?thesis by (simp add: consumeArc_def update_keys)
  qed
  show "hasPlace (consumeArc n a) q = hasPlace n q"
    by (simp add: consumeArc_def hasPlace_def update_conv' split: option.splits)
qed

lemma frame_consumeInputs:
  "transitions (consumeInputs n as) = transitions n" "arcs (consumeInputs n as) = arcs n"
  "map fst (places (consumeInputs n as)) = map fst (places n)"
  "hasPlace (consumeInputs n as) q = hasPlace n q"
  unfolding consumeInputs_def
  by (induction as arbitrary: n) (simp_all add: frame_consumeArc)

section \<open>Firing, step by step\<close>

lemma fireTransition_commit:
  assumes "map_of (transitions n) tid = Some t"
    and "candidateBindings n tid sel = b # bs"
    and "guardAccepts t b"
  shows "fireTransition n tid sel = commitFiring n tid t b"
  using assms by (simp add: fireTransition_def)

lemma fireTransition_guard_fails:
  assumes "map_of (transitions n) tid = Some t"
    and "candidateBindings n tid sel = b # bs"
    and "\<not> guardAccepts t b"
  shows "fireTransition n tid sel =
           (Inl (TransitionNotEnabledError (guardFailedMessage tid) (transition_name t)
                   (getEnabledTransitions n)), n)"
  using assms by (simp add: fireTransition_def)

text \<open>
  Claim C1, as the code has it. The input tokens are removed before the handler is
  awaited, and nothing restores them. When the firing reaches the handler and the handler
  rejects, the promise rejects with the handler's own reason, and the net is the net after
  consumption: every place holds a subsequence of the tokens it held (tokens are only
  removed, none is produced), and the places' ids, the transitions, the arcs and the token
  counter are unchanged.
\<close>

theorem handler_rejection_keeps_consumption:
  assumes "map_of (transitions n) tid = Some t"
    and "candidateBindings n tid sel = b # bs"
    and "guardAccepts t b"
    and "handler t = Some h"
    and "h b = Inl reason"
  shows "fireTransition n tid sel = (Inl (HandlerRejection reason), consumeInputs n (getInputArcs n tid))
         \<and> (\<forall>q. subseq (placeTokens (consumeInputs n (getInputArcs n tid)) q) (placeTokens n q))
         \<and> map fst (places (consumeInputs n (getInputArcs n tid))) = map fst (places n)
         \<and> transitions (consumeInputs n (getInputArcs n tid)) = transitions n
         \<and> arcs (consumeInputs n (getInputArcs n tid)) = arcs n
         \<and> tokenCounter (consumeInputs n (getInputArcs n tid)) = tokenCounter n"
proof -
  from assms(4,5) have "runHandler t b = Inl reason"
    by (simp add: runHandler_def)
  then have "commitFiring n tid t b = (Inl (HandlerRejection reason), consumeInputs n (getInputArcs n tid))"
    by (simp add: commitFiring_def Let_def)
  with fireTransition_commit [OF assms(1-3)] show ?thesis
    by (simp add: subseq_consumeInputs frame_consumeInputs tokenCounter_consumeInputs)
qed

section \<open>Production\<close>





section \<open>The file operations example, evaluated\<close>

lemmas file_eval =
  Let_def seed_def addToken_def fileNet_def mkPlace_def mkArc_def findValidBindings_def
  getInputArcs_def getOutputArcs_def arcAccepts_def variableName_def tokenName_def
  showNat.simps digitChar_eval

lemma fileNet_transition_fields:
  "transition_id readFile = ''read_file''" "transition_id writeFile = ''write_file''"
  "transition_id modifyWrite = ''modify_write''"
  "transition_name readFile = ''read:file''" "transition_name writeFile = ''write:file''"
  "transition_name modifyWrite = ''modify:file:write''"
  "guard readFile = None" "guard writeFile = None"
  by (simp_all add: readFile_def writeFile_def modifyWrite_def)

lemma pathlessNet_transition: "map_of (transitions pathlessNet) ''read_file'' = Some readFile"
  by (simp add: pathlessNet_def file_eval)

lemma pathlessNet_bindings:
  "candidateBindings pathlessNet ''read_file'' None = [[(''file_found_token'', VObj [])]]"
  by (simp add: candidateBindings_def pathlessNet_def file_eval)

lemma pathlessNet_tokens:
  "placeTokens pathlessNet ''file_found''
     = [\<lparr>token_id = ''token-1'', color = VObj [], token_place = ''file_found''\<rparr>]"
  by (simp add: placeTokens_def pathlessNet_def file_eval)

lemma pathlessNet_consumed:
  "placeTokens (consumeInputs pathlessNet (getInputArcs pathlessNet ''read_file'')) ''file_found'' = []"
proof -
  have "getInputArcs pathlessNet ''read_file'' = [mkArc ''found_to_read'' ''file_found'' ''read_file'']"
    by (simp add: pathlessNet_def file_eval)
  then show ?thesis
    by (simp add: consumeInputs_def placeTokens_consumeArc pathlessNet_tokens arcWeight_def
        arcAccepts_def mkArc_def)
qed

lemma readFile_rejects:
  "runHandler readFile [(''file_found_token'', VObj [])]
     = Inl (VStr ''No file token found. You must find a file first using search:files'')"
  by (simp add: runHandler_def readFile_def Let_def propOf_def objGet_def)


text \<open>
  The claim C1 as stated fails: in the file operations example, a found file whose token
  has no path is bound by the search, consumed, and then rejected by the handler of
  \<open>read:file\<close>; afterwards the place \<open>file_found\<close> is empty.
\<close>

theorem handler_rejection_counterexample:
  "fst (fireTransition pathlessNet ''read_file'' None)
     = Inl (HandlerRejection (VStr ''No file token found. You must find a file first using search:files''))
   \<and> placeTokens pathlessNet ''file_found''
       = [\<lparr>token_id = ''token-1'', color = VObj [], token_place = ''file_found''\<rparr>]
   \<and> placeTokens (snd (fireTransition pathlessNet ''read_file'' None)) ''file_found'' = []"
proof -
  have g: "guardAccepts readFile [(''file_found_token'', VObj [])]"
    by (simp add: guardAccepts_def fileNet_transition_fields)
  have "fireTransition pathlessNet ''read_file'' None
          = commitFiring pathlessNet ''read_file'' readFile [(''file_found_token'', VObj [])]"
    by (rule fireTransition_commit [OF pathlessNet_transition pathlessNet_bindings g])
  then show ?thesis
    by (simp add: commitFiring_def Let_def readFile_rejects pathlessNet_consumed pathlessNet_tokens)
qed

theorem handler_rejection_keeps_consumption_witness:
  "map_of (transitions pathlessNet) ''read_file'' = Some readFile
   \<and> candidateBindings pathlessNet ''read_file'' None = [[(''file_found_token'', VObj [])]]
   \<and> guardAccepts readFile [(''file_found_token'', VObj [])]
   \<and> fireTransition pathlessNet ''read_file'' None
       = (Inl (HandlerRejection (VStr ''No file token found. You must find a file first using search:files'')),
          consumeInputs pathlessNet (getInputArcs pathlessNet ''read_file''))
   \<and> tokenCounter (consumeInputs pathlessNet (getInputArcs pathlessNet ''read_file'')) = 1"
proof -
  have g: "guardAccepts readFile [(''file_found_token'', VObj [])]"
    by (simp add: guardAccepts_def fileNet_transition_fields)
  obtain h where h: "handler readFile = Some h"
    "h [(''file_found_token'', VObj [])]
       = Inl (VStr ''No file token found. You must find a file first using search:files'')"
    by (simp add: readFile_def Let_def propOf_def objGet_def)
  have c: "tokenCounter pathlessNet = 1"
    by (simp add: pathlessNet_def file_eval)
  from handler_rejection_keeps_consumption [OF pathlessNet_transition pathlessNet_bindings g h]
  show ?thesis
    by (simp add: pathlessNet_transition pathlessNet_bindings g c)
qed



section \<open>The guard and the candidate bindings\<close>

lemma twoFilesNet_transitions: "transitions twoFilesNet = transitions fileNet"
  by (simp add: twoFilesNet_def Let_def seed_def addToken_def fileNet_def mkPlace_def)

lemma twoFilesNet_bindings:
  "findValidBindings twoFilesNet (getInputArcs twoFilesNet ''modify_write'')
     = [[(''file_read_token'', bareFile)], [(''file_read_token'', fullFile)]]"
  by (simp add: twoFilesNet_def file_eval)

lemma modifyWrite_guard:
  "\<not> guardAccepts modifyWrite [(''file_read_token'', bareFile)]"
  "guardAccepts modifyWrite [(''file_read_token'', fullFile)]"
  by (simp_all add: guardAccepts_def modifyWrite_def propOf_def objGet_def bareFile_def fullFile_def)

lemma modifyWrite_hinted:
  "mkHint modifyWrite [(''file_read_token'', fullFile)] \<in> set (getEnabledTransitions twoFilesNet)"
proof -
  have "(''modify_write'', modifyWrite) \<in> set (transitions twoFilesNet)"
    by (simp add: twoFilesNet_transitions fileNet_def)
  moreover have "mkHint modifyWrite [(''file_read_token'', fullFile)]
                   \<in> set (transitionHints twoFilesNet modifyWrite)"
    by (simp add: transitionHints_def fileNet_transition_fields twoFilesNet_bindings modifyWrite_guard)
  ultimately show ?thesis
    unfolding set_getEnabledTransitions by force
qed

text \<open>
  Claim C3 at a failing input: two files are read, the first without content.
  \<open>getEnabledTransitions\<close> evaluates the guard of \<open>modify:file:write\<close> on every binding
  found and emits a hint for the second, so it reports the transition as enabled;
  \<open>fireTransition\<close> evaluates the guard on the first binding only and throws the
  \<open>TransitionNotEnabledError\<close>, although the guard accepts the second binding.
\<close>

theorem guard_checked_on_first_binding_only:
  "findValidBindings twoFilesNet (getInputArcs twoFilesNet ''modify_write'')
     = [[(''file_read_token'', bareFile)], [(''file_read_token'', fullFile)]]
   \<and> \<not> guardAccepts modifyWrite [(''file_read_token'', bareFile)]
   \<and> guardAccepts modifyWrite [(''file_read_token'', fullFile)]
   \<and> mkHint modifyWrite [(''file_read_token'', fullFile)] \<in> set (getEnabledTransitions twoFilesNet)
   \<and> fireTransition twoFilesNet ''modify_write'' None
       = (Inl (TransitionNotEnabledError ''Guard condition failed for transition modify_write''
                 ''modify:file:write'' (getEnabledTransitions twoFilesNet)), twoFilesNet)"
proof -
  have t: "map_of (transitions twoFilesNet) ''modify_write'' = Some modifyWrite"
    by (simp add: twoFilesNet_transitions fileNet_def)
  have c: "candidateBindings twoFilesNet ''modify_write'' None
             = [(''file_read_token'', bareFile)] # [[(''file_read_token'', fullFile)]]"
    by (simp add: candidateBindings_def twoFilesNet_bindings)
  have "fireTransition twoFilesNet ''modify_write'' None
       = (Inl (TransitionNotEnabledError (guardFailedMessage ''modify_write'')
                 (transition_name modifyWrite) (getEnabledTransitions twoFilesNet)), twoFilesNet)"
    by (rule fireTransition_guard_fails [OF t c modifyWrite_guard(1)])
  then show ?thesis
    by (simp add: twoFilesNet_bindings modifyWrite_guard modifyWrite_hinted guardFailedMessage_def
        fileNet_transition_fields)
qed

section \<open>Path discovery\<close>

text \<open>More fuel never changes a result: a call that returns needs a bounded depth.\<close>

lemma pathArcs_mono:
  assumes "\<And>x y. r x = Some y \<Longrightarrow> r' x = Some y"
  shows "pathArcs r st as p = Some y \<Longrightarrow> pathArcs r' st as p = Some y"
proof (induction as arbitrary: p)
  case Nil
  then show ?case by simp
next
  case (Cons a as)
  show ?case
  proof (cases "List.find (\<lambda>t. transition_id t = source a) (stateTransitions st)")
    case None
    with Cons show ?thesis by simp
  next
    case (Some t)
    show ?thesis
    proof (cases "checkTransitionEnabled st (transition_id t)")
      case True
      with Some Cons show ?thesis by simp
    next
      case False
      with Some Cons.prems obtain pr where pr: "r (getInputPlaces st (transition_id t)) = Some pr"
        and rest: "pathArcs r st as (p @ pr @ [transition_name t]) = Some y"
        by (auto split: option.splits)
      from pr have "r' (getInputPlaces st (transition_id t)) = Some pr" by (rule assms)
      moreover from rest have "pathArcs r' st as (p @ pr @ [transition_name t]) = Some y"
        by (rule Cons.IH)
      ultimately show ?thesis using Some False by simp
    qed
  qed
qed

lemma pathPlaces_mono:
  assumes "\<And>x y. r x = Some y \<Longrightarrow> r' x = Some y"
  shows "pathPlaces r st ps p = Some y \<Longrightarrow> pathPlaces r' st ps p = Some y"
proof (induction ps arbitrary: p)
  case Nil
  then show ?case by simp
next
  case (Cons q ps)
  from Cons.prems obtain p1
    where a: "pathArcs r st (filter (\<lambda>a. target a = q) (stateArcs st)) p = Some p1"
      and b: "pathPlaces r st ps p1 = Some y"
    by (auto split: option.splits)
  have "pathArcs r' st (filter (\<lambda>a. target a = q) (stateArcs st)) p = Some p1"
    using a assms pathArcs_mono [of r r'] by blast
  moreover from b have "pathPlaces r' st ps p1 = Some y" by (rule Cons.IH)
  ultimately show ?case by simp
qed

lemma findPathToFulfill_Suc:
  "findPathToFulfill fuel st ts = Some y \<Longrightarrow> findPathToFulfill (Suc fuel) st ts = Some y"
proof (induction fuel arbitrary: ts y)
  case 0
  then show ?case by simp
next
  case (Suc fuel)
  from Suc.prems obtain p where p: "pathPlaces (findPathToFulfill fuel st) st ts [] = Some p"
    and y: "y = uniq p"
    by auto
  have "pathPlaces (findPathToFulfill (Suc fuel) st) st ts [] = Some p"
    using p Suc.IH pathPlaces_mono [of "findPathToFulfill fuel st" "findPathToFulfill (Suc fuel) st"]
    by blast
  with y show ?case by simp
qed

lemma findPathToFulfill_mono:
  "findPathToFulfill fuel st ts = Some y \<Longrightarrow> findPathToFulfill (fuel + k) st ts = Some y"
proof (induction k)
  case 0
  then show ?case by simp
next
  case (Suc k)
  then have "findPathToFulfill (fuel + k) st ts = Some y" by simp
  then have "findPathToFulfill (Suc (fuel + k)) st ts = Some y" by (rule findPathToFulfill_Suc)
  then show ?case by (simp only: add_Suc_right)
qed

text \<open>The task workflow with every place empty, as \<open>getState\<close> returns it.\<close>

lemma taskState:
  "stateArcs (getState taskNet) = arcs taskNet"
  "stateTransitions (getState taskNet) = [startTask, completeTask, reviewApprove, reviewReject]"
  "statePlaces (getState taskNet) = [mkPlace ''backlog'' ''Backlog'', mkPlace ''in_progress'' ''In Progress'',
     mkPlace ''review'' ''In Review'', mkPlace ''done'' ''Done'']"
  by (simp_all add: getState_def taskNet_def)

lemma taskState_producers:
  "filter (\<lambda>a. target a = ''review'') (stateArcs (getState taskNet)) = [mkArc ''a4'' ''complete_task'' ''review'']"
  "filter (\<lambda>a. target a = ''in_progress'') (stateArcs (getState taskNet))
     = [mkArc ''a2'' ''start_task'' ''in_progress'', mkArc ''a8'' ''review_reject'' ''in_progress'']"
  unfolding taskState by (simp_all add: taskNet_def mkArc_def)

lemma taskState_find:
  "List.find (\<lambda>t. transition_id t = source (mkArc ''a4'' ''complete_task'' ''review''))
     (stateTransitions (getState taskNet)) = Some completeTask"
  "List.find (\<lambda>t. transition_id t = source (mkArc ''a2'' ''start_task'' ''in_progress''))
     (stateTransitions (getState taskNet)) = Some startTask"
  "List.find (\<lambda>t. transition_id t = source (mkArc ''a8'' ''review_reject'' ''in_progress''))
     (stateTransitions (getState taskNet)) = Some reviewReject"
  "List.find (\<lambda>t. transition_id t = ''review_approve'')
     (stateTransitions (getState taskNet)) = Some reviewApprove"
  by (simp_all add: taskState mkArc_def taskNet_transition_fields)

lemma taskState_disabled:
  "\<not> checkTransitionEnabled (getState taskNet) ''complete_task''"
  "\<not> checkTransitionEnabled (getState taskNet) ''start_task''"
  "\<not> checkTransitionEnabled (getState taskNet) ''review_reject''"
  unfolding checkTransitionEnabled_def taskState by (simp_all add: taskNet_def mkArc_def mkPlace_def)

lemma taskState_inputs:
  "getInputPlaces (getState taskNet) ''complete_task'' = [''in_progress'']"
  "getInputPlaces (getState taskNet) ''review_reject'' = [''review'']"
  unfolding getInputPlaces_def taskState by (simp_all add: taskNet_def mkArc_def)

lemma taskState_missing:
  "missingPlacesOf (getState taskNet) ''review_approve'' = [''review'']"
  unfolding missingPlacesOf_def taskState
  by (simp add: taskNet_def mkArc_def mkPlace_def List.map_filter_simps)

lemma taskNet_cycle:
  "findPathToFulfill fuel (getState taskNet) [''review''] = None
   \<and> findPathToFulfill fuel (getState taskNet) [''in_progress''] = None"
proof (induction fuel)
  case 0
  then show ?case by simp
next
  case (Suc fuel)
  define r where "r = findPathToFulfill fuel (getState taskNet)"
  from Suc have ih: "r [''review''] = None" "r [''in_progress''] = None"
    by (simp_all add: r_def)
  have "pathArcs r (getState taskNet)
          [mkArc ''a2'' ''start_task'' ''in_progress'', mkArc ''a8'' ''review_reject'' ''in_progress''] [] = None"
    by (cases "r (getInputPlaces (getState taskNet) ''start_task'')")
       (simp_all add: taskState_find taskState_disabled taskState_inputs taskNet_transition_fields ih)
  then have "pathPlaces r (getState taskNet) [''in_progress''] [] = None"
    by (simp add: taskState_producers)
  moreover have "pathPlaces r (getState taskNet) [''review''] [] = None"
    by (simp add: taskState_producers taskState_find taskState_disabled taskState_inputs
        taskNet_transition_fields ih)
  ultimately show ?case
    by (simp add: r_def)
qed

text \<open>
  Claim C5 at a failing input: the task workflow of the demonstration, whose arcs form
  the production cycle \<open>in_progress \<rightarrow> complete_task \<rightarrow> review \<rightarrow> review_reject \<rightarrow>
  in_progress\<close>, with no token anywhere. The hint for \<open>review_approve\<close> needs a path to the
  place \<open>review\<close>, and the recursion for \<open>review\<close> calls itself for \<open>in_progress\<close> and
  that one for \<open>review\<close> again: whatever depth is allowed, the call does not return.
\<close>

theorem path_discovery_diverges_on_cycle:
  "\<forall>fuel. findPathToFulfill fuel (getState taskNet) [''review''] = None
         \<and> generateContextualHint fuel taskNet ''review_approve'' = None"
proof
  fix fuel
  have "findPathToFulfill fuel (getState taskNet) [''review''] = None"
    by (simp add: taskNet_cycle)
  then show "findPathToFulfill fuel (getState taskNet) [''review''] = None
         \<and> generateContextualHint fuel taskNet ''review_approve'' = None"
    by (simp add: generateContextualHint_def Let_def taskState_find taskState_missing)
qed

text \<open>On the file operations example, which has no cycle, the same call returns.\<close>

lemma path_discovery_returns_on_fileNet:
  "map_option suggestedPath (generateContextualHint 2 fileNet ''write_file'') = Some [''read:file'']
   \<and> map_option missingRequirements (generateContextualHint 2 fileNet ''write_file'') = Some [''file content'']"
  by (simp add: generateContextualHint_def Let_def getState_def fileNet_def mkArc_def mkPlace_def
      fileNet_transition_fields missingPlacesOf_def List.map_filter_simps checkTransitionEnabled_def
      getInputPlaces_def uniq_def humanReadablePlace_def placeDescriptions_def buildReadableHint_def
      numeral_2_eq_2)

section \<open>What the binding search emits\<close>

lemma bindChoice_agree:
  assumes "length ch = length as"
    and "\<And>k. k \<notin> variableName ` set as \<Longrightarrow> m k = m' k"
  shows "bindChoice as ch m = bindChoice as ch m'"
  using assms
proof (induction as arbitrary: ch m m')
  case Nil
  then have "m = m'" by (intro ext) simp
  with Nil show ?case by simp
next
  case (Cons a as)
  from Cons.prems(1) obtain t ts where ch: "ch = t # ts" and l: "length ts = length as"
    by (cases ch) auto
  have "bindChoice as ts (m(variableName a \<mapsto> color t)) = bindChoice as ts (m'(variableName a \<mapsto> color t))"
  proof (rule Cons.IH [OF l])
    fix k
    assume "k \<notin> variableName ` set as"
    then show "(m(variableName a \<mapsto> color t)) k = (m'(variableName a \<mapsto> color t)) k"
      using Cons.prems(2) [of k] by (cases "k = variableName a") auto
  qed
  then show ?case by (simp add: ch)
qed

lemma length_arc_choice:
  assumes "ch \<in> set (concat (map (\<lambda>t. map ((#) t) (product_lists xss)) ts))"
  shows "length ch = Suc (length xss)"
  using assms by (auto dest: in_set_product_lists_length)

lemma search_invariant:
  "(map map_of (fst (checkBinding ps as cur))
      = map (\<lambda>ch. bindChoice as ch (map_of cur)) (product_lists (map (arcCandidates ps) as))
    \<and> (\<forall>k. k \<notin> variableName ` set as \<longrightarrow> map_of (snd (checkBinding ps as cur)) k = map_of cur k))"
  "(map map_of (fst (checkTokens ps a rest ts cur))
      = map (\<lambda>ch. bindChoice (a # rest) ch (map_of cur))
          (concat (map (\<lambda>t. map ((#) t) (product_lists (map (arcCandidates ps) rest)))
                     (filter (arcAccepts a) ts)))
    \<and> (\<forall>k. k \<notin> variableName ` set (a # rest) \<longrightarrow> map_of (snd (checkTokens ps a rest ts cur)) k = map_of cur k))"
proof (induction ps as cur and ps a rest ts cur rule: checkBinding_checkTokens.induct)
  case (1 ps cur)
  then show ?case by simp
next
  case (2 ps a rest cur)
  show ?case
  proof (cases "map_of ps (source a)")
    case None
    then show ?thesis by (simp add: arcCandidates_def)
  next
    case (Some p)
    from 2 [OF Some] Some show ?thesis
      by (simp add: arcCandidates_def)
  qed
next
  case (3 ps a rest cur)
  then show ?case by simp
next
  case (4 ps a rest t ts cur)
  show ?case
  proof (cases "arcAccepts a t")
    case False
    with 4(3) show ?thesis by simp
  next
    case True
    define k where "k = variableName a"
    define PL where "PL = product_lists (map (arcCandidates ps) rest)"
    define REST where "REST = concat (map (\<lambda>t. map ((#) t) PL) (filter (arcAccepts a) ts))"
    obtain found cur2 where c1: "checkBinding ps rest (AList.update k (color t) cur) = (found, cur2)"
      by (cases "checkBinding ps rest (AList.update k (color t) cur)")
    obtain found' cur4 where c2: "checkTokens ps a rest ts (AList.delete k cur2) = (found', cur4)"
      by (cases "checkTokens ps a rest ts (AList.delete k cur2)")
    from 4(1) [OF True] c1
    have f1: "map map_of found = map (\<lambda>ch. bindChoice rest ch (map_of (AList.update k (color t) cur))) PL"
      and fr1: "\<And>k'. k' \<notin> variableName ` set rest \<Longrightarrow> map_of cur2 k' = map_of (AList.update k (color t) cur) k'"
      by (simp_all add: k_def PL_def)
    from 4(2) [OF True c1 [unfolded k_def, symmetric]] c2
    have f2: "map map_of found' = map (\<lambda>ch. bindChoice (a # rest) ch (map_of (AList.delete k cur2))) REST"
      and fr2: "\<And>k'. k' \<notin> variableName ` set (a # rest) \<Longrightarrow> map_of cur4 k' = map_of (AList.delete k cur2) k'"
      by (simp_all add: k_def PL_def REST_def)
    have agree: "map_of (AList.delete k cur2) k' = map_of cur k'" if "k' \<notin> variableName ` set (a # rest)" for k'
    proof -
      from that have "k' \<noteq> k" "k' \<notin> variableName ` set rest" by (auto simp: k_def)
      then show ?thesis
        by (simp add: delete_conv' fr1 update_conv')
    qed
    have g1: "map map_of found = map (\<lambda>ch. bindChoice (a # rest) ch (map_of cur)) (map ((#) t) PL)"
      by (simp add: f1 update_conv' k_def comp_def)
    have g2: "map map_of found' = map (\<lambda>ch. bindChoice (a # rest) ch (map_of cur)) REST"
      unfolding f2
    proof (rule map_cong [OF refl])
      fix ch
      assume "ch \<in> set REST"
      then have "length ch = Suc (length (map (arcCandidates ps) rest))"
        unfolding REST_def PL_def by (rule length_arc_choice)
      then have "length ch = length (a # rest)" by simp
      then show "bindChoice (a # rest) ch (map_of (AList.delete k cur2)) = bindChoice (a # rest) ch (map_of cur)"
        by (rule bindChoice_agree) (rule agree)
    qed
    have r: "checkTokens ps a rest (t # ts) cur = (found @ found', cur4)"
      using True c1 c2 by (simp add: k_def)
    have "map map_of (fst (checkTokens ps a rest (t # ts) cur))
            = map (\<lambda>ch. bindChoice (a # rest) ch (map_of cur))
                (concat (map (\<lambda>t. map ((#) t) PL) (filter (arcAccepts a) (t # ts))))"
      unfolding r using True by (simp add: g1 g2 REST_def)
    moreover have "\<forall>k'. k' \<notin> variableName ` set (a # rest) \<longrightarrow>
                     map_of (snd (checkTokens ps a rest (t # ts) cur)) k' = map_of cur k'"
      unfolding r by (simp add: fr2 agree del: set_simps image_insert)
    ultimately show ?thesis
      by (simp only: PL_def)
  qed
qed

text \<open>
  Claim C2, as the code has it. The search keeps no record of the tokens bound earlier in
  a branch. For every arc it walks the tokens of the arc's place in FIFO order and takes
  each token the arc's pattern accepts (every token when there is no pattern). The
  bindings it emits are, in order, exactly the choices of one accepted token per input
  arc, the first arc varying slowest, whether or not two arcs chose the same token; each
  choice is written into the binding arc by arc under the variable of the arc's place.
  (Bindings are compared as maps: the key order of the emitted objects is not fixed by
  the choice.)
\<close>

theorem findValidBindings_choices:
  "map map_of (findValidBindings n inputArcs)
     = map (\<lambda>choice. bindChoice inputArcs choice Map.empty) (tokenChoices n inputArcs)
   \<and> set (tokenChoices n inputArcs)
       = {choice. list_all2 (\<lambda>t a. t \<in> set (arcCandidates (places n) a)) choice inputArcs}"
proof -
  have "map map_of (fst (checkBinding (places n) inputArcs []))
          = map (\<lambda>choice. bindChoice inputArcs choice Map.empty) (tokenChoices n inputArcs)"
    using search_invariant(1) [of "places n" inputArcs "[]"] by (simp add: tokenChoices_def)
  moreover have "inputArcs = [] \<Longrightarrow> fst (checkBinding (places n) inputArcs []) = [[]]" by simp
  ultimately have "map map_of (findValidBindings n inputArcs)
     = map (\<lambda>choice. bindChoice inputArcs choice Map.empty) (tokenChoices n inputArcs)"
    by (cases "inputArcs = []") (simp_all add: findValidBindings_def)
  moreover have "set (tokenChoices n inputArcs)
       = {choice. list_all2 (\<lambda>t a. t \<in> set (arcCandidates (places n) a)) choice inputArcs}"
    unfolding tokenChoices_def product_lists_set
    by (auto simp: list_all2_map2)
  ultimately show ?thesis by simp
qed

text \<open>
  The claim C2 as stated fails: the place \<open>p\<close> holds the single token \<open>token-1\<close> and two
  arcs read it. The search emits a binding, and the choice behind it binds \<open>token-1\<close> to
  both arcs.
\<close>

theorem no_aliasing_counterexample:
  "placeTokens joinNet ''p'' = [\<lparr>token_id = ''token-1'', color = VNum 7, token_place = ''p''\<rparr>]
   \<and> map source (getInputArcs joinNet ''join'') = [''p'', ''p'']
   \<and> findValidBindings joinNet (getInputArcs joinNet ''join'') = [[(''p_token'', VNum 7)]]
   \<and> tokenChoices joinNet (getInputArcs joinNet ''join'')
       = [[\<lparr>token_id = ''token-1'', color = VNum 7, token_place = ''p''\<rparr>,
           \<lparr>token_id = ''token-1'', color = VNum 7, token_place = ''p''\<rparr>]]"
  by (simp add: joinNet_def placeTokens_def tokenChoices_def arcCandidates_def Let_def seed_def
      addToken_def mkPlace_def mkArc_def findValidBindings_def getInputArcs_def arcAccepts_def
      variableName_def tokenName_def showNat.simps digitChar_eval)

section \<open>The snapshot of \<open>getState\<close>\<close>

text \<open>The state \<open>getState\<close> shows is the snapshot with its references followed.\<close>

lemma getState_netOf:
  "getState (netOf w) =
     \<lparr>statePlaces = map (objects w) (snapPlaces (getStateRefs w)),
      stateTransitions = snapTransitions (getStateRefs w),
      stateArcs = snapArcs (getStateRefs w)\<rparr>"
  by (simp add: getState_def netOf_def getStateRefs_def comp_def case_prod_unfold)










end
